theory Spec2Isabelle
  imports Complex_Main
begin

section \<open>The CRM store\<close>

text \<open>
  The module \<^verbatim>\<open>crm/models.py\<close> is not among the sources; the rows below carry the
  fields that \<^verbatim>\<open>crm/schema.py\<close> and \<^verbatim>\<open>crm/seed_db.py\<close> read and write.
  Prices are exact decimals and are modelled as rationals.  The order date is set by
  the database clock and is not modelled.  Identifiers are the primary keys issued by the
  database: each table has a sequence whose last issued value is kept in the store.
\<close>

record customer =
  c_id :: nat
  c_name :: string
  c_email :: string
  c_phone :: "string option"

record product =
  p_id :: nat
  p_name :: string
  p_price :: rat
  p_stock :: int

record order =
  o_id :: nat
  o_customer :: nat
  o_products :: "nat list"
  o_total_amount :: rat

record store =
  customers :: "customer list"
  products :: "product list"
  orders :: "order list"
  customer_seq :: nat
  product_seq :: nat
  order_seq :: nat

definition empty_store :: store where
  "empty_store = \<lparr>customers = [], products = [], orders = [],
     customer_seq = 0, product_seq = 0, order_seq = 0\<rparr>"

text \<open>
  Every failure of the mutations is a \<^verbatim>\<open>ValidationError\<close> carrying a message;
  \<^verbatim>\<open>get_or_create\<close> raises \<^verbatim>\<open>MultipleObjectsReturned\<close> when its key is
  not unique.
\<close>

datatype exn = ValidationError string | MultipleObjectsReturned

text \<open>The error kinds of the specification, as the messages the code raises.\<close>

definition DuplicateError :: exn where
  "DuplicateError = ValidationError ''Email already exists.''"

definition FormatError :: exn where
  "FormatError = ValidationError ''Invalid phone format.''"

definition RangeError_price :: exn where
  "RangeError_price = ValidationError ''Price must be positive.''"

definition RangeError_stock :: exn where
  "RangeError_stock = ValidationError ''Stock cannot be negative.''"

definition NotFoundError :: exn where
  "NotFoundError = ValidationError ''Invalid customer ID.''"

definition RequiredFieldError_products :: exn where
  "RequiredFieldError_products = ValidationError ''At least one product must be selected.''"

definition ReferenceError :: exn where
  "ReferenceError = ValidationError ''Some product IDs are invalid.''"

definition RequiredFieldError_bulk :: exn where
  "RequiredFieldError_bulk = ValidationError ''Name and Email are required.''"

definition DuplicateError_bulk :: "string \<Rightarrow> exn" where
  "DuplicateError_bulk email = ValidationError (''Email already exists: '' @ email)"

definition FormatError_bulk :: "string \<Rightarrow> exn" where
  "FormatError_bulk phone = ValidationError (''Invalid phone format for: '' @ phone)"

section \<open>The phone pattern\<close>

text \<open>
  \<^verbatim>\<open>re.match(r"^(\+?\d{10,15}|\d{3}-\d{3}-\d{4})$", phone)\<close>.
  Characters are bytes here, so \<^verbatim>\<open>\d\<close> is one of the ten ASCII digits.  Python's
  \<^verbatim>\<open>$\<close> matches at the end of the string and also just before a newline that ends
  the string.
\<close>

definition is_digit :: "char \<Rightarrow> bool" where
  "is_digit c = (c \<in> set ''0123456789'')"

definition plus_digits :: "string \<Rightarrow> bool" where
  "plus_digits b =
     (let d = (case b of [] \<Rightarrow> [] | c # r \<Rightarrow> if c = CHR ''+'' then r else b)
      in 10 \<le> length d \<and> length d \<le> 15 \<and> list_all is_digit d)"

definition dashed :: "string \<Rightarrow> bool" where
  "dashed b =
     (length b = 12 \<and> list_all is_digit (take 3 b) \<and> take 1 (drop 3 b) = ''-'' \<and>
      list_all is_digit (take 3 (drop 4 b)) \<and> take 1 (drop 7 b) = ''-'' \<and>
      list_all is_digit (drop 8 b))"

definition phone_body :: "string \<Rightarrow> bool" where
  "phone_body b = (plus_digits b \<or> dashed b)"

definition re_match_phone :: "string \<Rightarrow> bool" where
  "re_match_phone p =
     (phone_body p \<or> (p \<noteq> [] \<and> last p = CHR 0x0A \<and> phone_body (butlast p)))"

text \<open>\<^verbatim>\<open>phone and not re.match(...)\<close>: an absent or empty phone is not checked.\<close>

definition phone_rejected :: "string option \<Rightarrow> bool" where
  "phone_rejected phone =
     (case phone of None \<Rightarrow> False | Some p \<Rightarrow> p \<noteq> [] \<and> \<not> re_match_phone p)"

section \<open>Mutations\<close>

text \<open>
  A mutation takes the store and returns the store it leaves behind together with either
  the exception it raised or its result.
\<close>

definition email_exists :: "store \<Rightarrow> string \<Rightarrow> bool" where
  "email_exists s email = (email \<in> set (map c_email (customers s)))"

definition save_customer :: "store \<Rightarrow> string \<Rightarrow> string \<Rightarrow> string option \<Rightarrow> store \<times> customer" where
  "save_customer s name email phone =
     (let c = \<lparr>c_id = Suc (customer_seq s), c_name = name, c_email = email, c_phone = phone\<rparr>
      in (s\<lparr>customers := customers s @ [c], customer_seq := Suc (customer_seq s)\<rparr>, c))"

definition create_customer ::
  "store \<Rightarrow> string \<Rightarrow> string \<Rightarrow> string option \<Rightarrow> store \<times> (exn + customer \<times> string)" where
  "create_customer s name email phone =
     (if email_exists s email then (s, Inl DuplicateError)
      else if phone_rejected phone then (s, Inl FormatError)
      else (case save_customer s name email phone of
              (s', c) \<Rightarrow> (s', Inr (c, ''Customer created successfully!''))))"

text \<open>
  One entry of the bulk list is a JSON object \<^verbatim>\<open>{name, email, phone}\<close> whose values are
  strings; \<^verbatim>\<open>.get\<close> gives \<^verbatim>\<open>None\<close> for a key that is missing.
\<close>

record customer_data =
  d_name :: "string option"
  d_email :: "string option"
  d_phone :: "string option"

text \<open>The body of the \<^verbatim>\<open>try\<close> for one entry.\<close>

definition bulk_item :: "store \<Rightarrow> customer_data \<Rightarrow> exn + store \<times> customer" where
  "bulk_item s d =
     (case d_name d of
        None \<Rightarrow> Inl RequiredFieldError_bulk
      | Some name \<Rightarrow>
         (case d_email d of
            None \<Rightarrow> Inl RequiredFieldError_bulk
          | Some email \<Rightarrow>
             if name = [] \<or> email = [] then Inl RequiredFieldError_bulk
             else if email_exists s email then Inl (DuplicateError_bulk email)
             else (case d_phone d of
                     None \<Rightarrow> Inr (save_customer s name email None)
                   | Some phone \<Rightarrow>
                       if phone \<noteq> [] \<and> \<not> re_match_phone phone then Inl (FormatError_bulk phone)
                       else Inr (save_customer s name email (Some phone)))))"

text \<open>
  The loop, with its two accumulators.  The list of errors holds the exceptions whose
  \<^verbatim>\<open>str\<close> the code appends.
\<close>

fun bulk_loop ::
  "store \<Rightarrow> customer_data list \<Rightarrow> customer list \<Rightarrow> exn list \<Rightarrow> store \<times> customer list \<times> exn list" where
  "bulk_loop s [] created_customers errors = (s, created_customers, errors)"
| "bulk_loop s (d # ds) created_customers errors =
     (case bulk_item s d of
        Inl e \<Rightarrow> bulk_loop s ds created_customers (errors @ [e])
      | Inr (s', c) \<Rightarrow> bulk_loop s' ds (created_customers @ [c]) errors)"

text \<open>
  Every exception is caught inside the loop, so the atomic block around the call always
  commits.
\<close>

definition bulk_create_customers ::
  "store \<Rightarrow> customer_data list \<Rightarrow> store \<times> customer list \<times> exn list" where
  "bulk_create_customers s ds = bulk_loop s ds [] []"

definition create_product ::
  "store \<Rightarrow> string \<Rightarrow> rat \<Rightarrow> int \<Rightarrow> store \<times> (exn + product)" where
  "create_product s name price stock =
     (if price \<le> 0 then (s, Inl RangeError_price)
      else if stock < 0 then (s, Inl RangeError_stock)
      else (let p = \<lparr>p_id = Suc (product_seq s), p_name = name, p_price = price, p_stock = stock\<rparr>
            in (s\<lparr>products := products s @ [p], product_seq := Suc (product_seq s)\<rparr>, Inr p)))"

text \<open>The field \<^verbatim>\<open>createProduct\<close>: \<^verbatim>\<open>stock\<close> has the default value 0.\<close>

definition create_product_field ::
  "store \<Rightarrow> string \<Rightarrow> rat \<Rightarrow> int option \<Rightarrow> store \<times> (exn + product)" where
  "create_product_field s name price stock =
     create_product s name price (case stock of None \<Rightarrow> 0 | Some k \<Rightarrow> k)"

text \<open>\<^verbatim>\<open>Product.objects.filter(id__in=product_ids)\<close>, in the order of the table.\<close>

definition products_in :: "store \<Rightarrow> nat list \<Rightarrow> product list" where
  "products_in s product_ids = filter (\<lambda>p. p_id p \<in> set product_ids) (products s)"

text \<open>\<^verbatim>\<open>Customer.objects.get(pk=customer_id)\<close>; \<^verbatim>\<open>None\<close> stands for \<^verbatim>\<open>DoesNotExist\<close>.\<close>

definition customer_get :: "store \<Rightarrow> nat \<Rightarrow> customer option" where
  "customer_get s customer_id = find (\<lambda>c. c_id c = customer_id) (customers s)"

definition create_order :: "store \<Rightarrow> nat \<Rightarrow> nat list \<Rightarrow> store \<times> (exn + order)" where
  "create_order s customer_id product_ids =
     (case customer_get s customer_id of
        None \<Rightarrow> (s, Inl NotFoundError)
      | Some customer \<Rightarrow>
          if product_ids = [] then (s, Inl RequiredFieldError_products)
          else (let prods = products_in s product_ids in
                if length prods \<noteq> length product_ids then (s, Inl ReferenceError)
                else (let ordr = \<lparr>o_id = Suc (order_seq s), o_customer = c_id customer,
                                   o_products = map p_id prods,
                                   o_total_amount = sum_list (map p_price prods)\<rparr>
                      in (s\<lparr>orders := orders s @ [ordr], order_seq := Suc (order_seq s)\<rparr>,
                          Inr ordr))))"

section \<open>The seed routine\<close>

text \<open>
  \<^verbatim>\<open>get_or_create\<close> looks the key up: no row creates one from the defaults, one row is
  returned as it is, several rows raise.  The lines printed are not modelled, and when a
  seed function raises the result is the exception alone.
\<close>

definition customer_get_or_create ::
  "store \<Rightarrow> string \<Rightarrow> string \<Rightarrow> string \<Rightarrow> exn + store \<times> customer \<times> bool" where
  "customer_get_or_create s email name phone =
     (case filter (\<lambda>c. c_email c = email) (customers s) of
        [] \<Rightarrow> (case save_customer s name email (Some phone) of (s', c) \<Rightarrow> Inr (s', c, True))
      | [c] \<Rightarrow> Inr (s, c, False)
      | _ \<Rightarrow> Inl MultipleObjectsReturned)"

definition product_get_or_create ::
  "store \<Rightarrow> string \<Rightarrow> rat \<Rightarrow> int \<Rightarrow> exn + store \<times> product \<times> bool" where
  "product_get_or_create s name price stock =
     (case filter (\<lambda>p. p_name p = name) (products s) of
        [] \<Rightarrow> (let p = \<lparr>p_id = Suc (product_seq s), p_name = name, p_price = price, p_stock = stock\<rparr>
               in Inr (s\<lparr>products := products s @ [p], product_seq := Suc (product_seq s)\<rparr>, p, True))
      | [p] \<Rightarrow> Inr (s, p, False)
      | _ \<Rightarrow> Inl MultipleObjectsReturned)"

definition customers_data :: "(string \<times> string \<times> string) list" where
  "customers_data =
     [(''Alice'', ''alice@example.com'', ''12345''),
      (''Bob'', ''bob@example.com'', ''67890''),
      (''Charlie'', ''charlie@example.com'', ''11223'')]"

definition products_data :: "(string \<times> rat \<times> int) list" where
  "products_data =
     [(''Laptop'', 850, 10), (''Phone'', 500, 20), (''Headphones'', 75, 50)]"

fun seed_customers_loop :: "store \<Rightarrow> (string \<times> string \<times> string) list \<Rightarrow> exn + store" where
  "seed_customers_loop s [] = Inr s"
| "seed_customers_loop s ((name, email, phone) # rest) =
     (case customer_get_or_create s email name phone of
        Inl e \<Rightarrow> Inl e
      | Inr (s', _, _) \<Rightarrow> seed_customers_loop s' rest)"

definition seed_customers :: "store \<Rightarrow> exn + store" where
  "seed_customers s = seed_customers_loop s customers_data"

fun seed_products_loop :: "store \<Rightarrow> (string \<times> rat \<times> int) list \<Rightarrow> exn + store" where
  "seed_products_loop s [] = Inr s"
| "seed_products_loop s ((name, price, stock) # rest) =
     (case product_get_or_create s name price stock of
        Inl e \<Rightarrow> Inl e
      | Inr (s', _, _) \<Rightarrow> seed_products_loop s' rest)"

definition seed_products :: "store \<Rightarrow> exn + store" where
  "seed_products s = seed_products_loop s products_data"

text \<open>
  \<^verbatim>\<open>Customer.objects.first()\<close> is the first row of the table and
  \<^verbatim>\<open>Product.objects.all()[:2]\<close> its first two rows.
\<close>

definition seed_orders :: "store \<Rightarrow> store" where
  "seed_orders s =
     (case customers s of
        [] \<Rightarrow> s
      | customer # _ \<Rightarrow>
          if products s = [] then s
          else (let prods = take 2 (products s);
                    ordr = \<lparr>o_id = Suc (order_seq s), o_customer = c_id customer,
                            o_products = map p_id prods,
                            o_total_amount = sum_list (map p_price prods)\<rparr>
                in s\<lparr>orders := orders s @ [ordr], order_seq := Suc (order_seq s)\<rparr>))"

definition run :: "store \<Rightarrow> exn + store" where
  "run s =
     (case seed_customers s of
        Inl e \<Rightarrow> Inl e
      | Inr s1 \<Rightarrow> (case seed_products s1 of
                    Inl e \<Rightarrow> Inl e
                  | Inr s2 \<Rightarrow> Inr (seed_orders s2)))"

section \<open>Properties of the stored rows\<close>

text \<open>
  A phone that is present satisfies the pattern; the empty string counts as absent, as it
  does for the check in the mutations.
\<close>

definition phone_ok :: "customer \<Rightarrow> bool" where
  "phone_ok c = (case c_phone c of None \<Rightarrow> True | Some p \<Rightarrow> p = [] \<or> re_match_phone p)"

definition phones_valid :: "store \<Rightarrow> bool" where
  "phones_valid s = list_all phone_ok (customers s)"

text \<open>
  A store for examples: one customer, and the two products of the example in the
  specification (product 10 costs 850.00 and product 11 costs 500.00).
\<close>

definition sample_store :: store where
  "sample_store =
     \<lparr>customers = [\<lparr>c_id = 1, c_name = ''Alice'', c_email = ''alice@example.com'', c_phone = None\<rparr>],
      products = [\<lparr>p_id = 10, p_name = ''Laptop'', p_price = 850, p_stock = 10\<rparr>,
                  \<lparr>p_id = 11, p_name = ''Phone'', p_price = 500, p_stock = 20\<rparr>],
      orders = [], customer_seq = 1, product_seq = 11, order_seq = 0\<rparr>"

text \<open>
  The primary keys of the product table, and the price of the product that an id resolves
  to (0 when it resolves to none).
\<close>

definition product_ids_of :: "store \<Rightarrow> nat list" where
  "product_ids_of s = map p_id (products s)"

definition price_of :: "store \<Rightarrow> nat \<Rightarrow> rat" where
  "price_of s i = (case find (\<lambda>p. p_id p = i) (products s) of None \<Rightarrow> 0 | Some p \<Rightarrow> p_price p)"

text \<open>
  The validation rules of the specification, for one entry of a bulk list taken on its
  own: the name and the email are required (neither absent nor empty), the email must not
  be the email of a customer of the store, and a phone that is present and not empty must
  match the pattern.  An entry is individually invalid in a store when it breaks one of
  these rules.  This is stated from the rules and not from the loop; that the body of the
  loop raises exactly for these entries is proved below.
\<close>

definition name_missing :: "customer_data \<Rightarrow> bool" where
  "name_missing d = (d_name d = None \<or> d_name d = Some [])"

definition email_missing :: "customer_data \<Rightarrow> bool" where
  "email_missing d = (d_email d = None \<or> d_email d = Some [])"

definition email_taken :: "store \<Rightarrow> customer_data \<Rightarrow> bool" where
  "email_taken s d = (case d_email d of None \<Rightarrow> False | Some email \<Rightarrow> email_exists s email)"

definition individually_invalid :: "store \<Rightarrow> customer_data \<Rightarrow> bool" where
  "individually_invalid s d =
     (name_missing d \<or> email_missing d \<or> email_taken s d \<or> phone_rejected (d_phone d))"

definition valid_entries :: "store \<Rightarrow> customer_data list \<Rightarrow> customer_data list" where
  "valid_entries s ds = filter (\<lambda>d. \<not> individually_invalid s d) ds"

definition invalid_entries :: "store \<Rightarrow> customer_data list \<Rightarrow> customer_data list" where
  "invalid_entries s ds = filter (individually_invalid s) ds"

text \<open>The entry that a stored customer was created from.\<close>

definition customer_data_of :: "customer \<Rightarrow> customer_data" where
  "customer_data_of c = \<lparr>d_name = Some (c_name c), d_email = Some (c_email c), d_phone = c_phone c\<rparr>"

text \<open>The exceptions that the loop body can raise for an entry.\<close>

definition errors_about :: "customer_data \<Rightarrow> exn list" where
  "errors_about d =
     RequiredFieldError_bulk #
     (case d_email d of None \<Rightarrow> [] | Some email \<Rightarrow> [DuplicateError_bulk email]) @
     (case d_phone d of None \<Rightarrow> [] | Some phone \<Rightarrow> [FormatError_bulk phone])"

definition error_about :: "exn \<Rightarrow> customer_data \<Rightarrow> bool" where
  "error_about e d = (e \<in> set (errors_about d))"

text \<open>The email column is unique.\<close>

definition emails_unique :: "store \<Rightarrow> bool" where
  "emails_unique s = distinct (map c_email (customers s))"

text \<open>Entries and rows for examples.\<close>

definition ann :: customer_data where
  "ann = \<lparr>d_name = Some ''Ann'', d_email = Some ''ann@example.com'', d_phone = None\<rparr>"

definition bad_phone :: customer_data where
  "bad_phone = \<lparr>d_name = Some ''Bob'', d_email = Some ''bob@example.com'', d_phone = Some ''12345''\<rparr>"

definition nameless_ann :: customer_data where
  "nameless_ann = \<lparr>d_name = Some [], d_email = Some ''ann@example.com'', d_phone = None\<rparr>"

definition ann_row :: customer where
  "ann_row = \<lparr>c_id = 1, c_name = ''Ann'', c_email = ''ann@example.com'', c_phone = None\<rparr>"

definition ann_store :: store where
  "ann_store = empty_store\<lparr>customers := [ann_row], customer_seq := 1\<rparr>"

text \<open>
  The product ids are primary keys: pairwise different, and none above the last value the
  sequence issued.
\<close>

definition products_keyed :: "store \<Rightarrow> bool" where
  "products_keyed s =
     (distinct (product_ids_of s) \<and> list_all (\<lambda>i. i \<le> product_seq s) (product_ids_of s))"

section \<open>The seed routine, run from the empty store\<close>

text \<open>
  C7.  From the empty store the seed routine returns normally with 3 customers, 3 products
  and 1 order; run again on that store it returns normally, leaves the customers and the
  products as they were (3 of each) and adds one more order, which makes 2.
\<close>

theorem seed_twice_counts:
  "(case run empty_store of
      Inl e \<Rightarrow> False
    | Inr s1 \<Rightarrow>
        length (customers s1) = 3 \<and> length (products s1) = 3 \<and> length (orders s1) = 1 \<and>
        (case run s1 of
           Inl e \<Rightarrow> False
         | Inr s2 \<Rightarrow>
             customers s2 = customers s1 \<and> products s2 = products s1 \<and>
             length (customers s2) = 3 \<and> length (products s2) = 3 \<and>
             length (orders s2) = 2))"
  by (simp add: Let_def run_def seed_orders_def seed_products_def products_data_def
      product_get_or_create_def seed_customers_def customers_data_def
      customer_get_or_create_def save_customer_def empty_store_def)

text \<open>
  C4.  The seed routine stores its sample customers without the phone check of the
  mutations: run from the empty store it leaves customers whose phone is present and does
  not satisfy the pattern (the first of them has the phone 12345).
\<close>

theorem seed_breaks_phone_format:
  "(case run empty_store of
      Inl e \<Rightarrow> False
    | Inr s \<Rightarrow>
        \<not> phones_valid s \<and> map c_phone (take 1 (customers s)) = [Some ''12345''] \<and>
        \<not> re_match_phone ''12345'')"
  by (simp add: Let_def run_def seed_orders_def seed_products_def products_data_def
      product_get_or_create_def seed_customers_def customers_data_def
      customer_get_or_create_def save_customer_def empty_store_def
      phones_valid_def phone_ok_def re_match_phone_def phone_body_def plus_digits_def
      dashed_def)

section \<open>Creating a customer\<close>

text \<open>
  C5.  For every store and every customer in it, creating a customer with that customer's
  email raises the duplicate-email error and returns the store as it was, whatever the name
  and the phone.
\<close>

theorem create_customer_duplicate_email:
  "c \<in> set (customers s) \<Longrightarrow>
     create_customer s name (c_email c) phone = (s, Inl DuplicateError)"
  by (simp add: create_customer_def email_exists_def)

theorem create_customer_duplicate_email_witness:
  "\<lparr>c_id = 1, c_name = ''Alice'', c_email = ''alice@example.com'', c_phone = None\<rparr>
     \<in> set (customers sample_store) \<and>
   create_customer sample_store ''Eve'' ''alice@example.com'' (Some ''+12345678901'')
     = (sample_store, Inl DuplicateError)"
  using create_customer_duplicate_email
    [of "\<lparr>c_id = 1, c_name = ''Alice'', c_email = ''alice@example.com'', c_phone = None\<rparr>"
        sample_store "''Eve''" "Some ''+12345678901''"]
  by (simp add: sample_store_def)

text \<open>
  C6.  The property is about the phone; the email is taken to be free, since an email
  that is already used is refused before the phone is looked at (C5).  For every store,
  name and email not already in the store: a non-empty phone that does not match the pattern
  raises the format error and leaves the store as it was; a phone that matches, an empty
  phone and an absent phone make the call succeed, and the new customer with that name,
  email and phone is appended to the customers.
\<close>

theorem create_customer_phone_format:
  "\<not> email_exists s email \<Longrightarrow>
     (p \<noteq> [] \<and> \<not> re_match_phone p \<longrightarrow>
        create_customer s name email (Some p) = (s, Inl FormatError)) \<and>
     (re_match_phone p \<or> p = [] \<longrightarrow>
        (\<exists>s' c. create_customer s name email (Some p)
                   = (s', Inr (c, ''Customer created successfully!'')) \<and>
           customers s' = customers s @ [c] \<and> c_name c = name \<and> c_email c = email \<and>
           c_phone c = Some p)) \<and>
     (\<exists>s' c. create_customer s name email None
                = (s', Inr (c, ''Customer created successfully!'')) \<and>
        customers s' = customers s @ [c] \<and> c_name c = name \<and> c_email c = email \<and>
        c_phone c = None)"
  by (auto simp: create_customer_def save_customer_def phone_rejected_def Let_def)

theorem create_customer_phone_format_witness:
  "\<not> email_exists sample_store ''bob@example.com'' \<and>
   ''12345'' \<noteq> [] \<and> \<not> re_match_phone ''12345'' \<and>
   create_customer sample_store ''Bob'' ''bob@example.com'' (Some ''12345'')
     = (sample_store, Inl FormatError) \<and>
   re_match_phone ''+1234567890'' \<and>
   (\<exists>s' c. create_customer sample_store ''Bob'' ''bob@example.com'' (Some ''+1234567890'')
              = (s', Inr (c, ''Customer created successfully!'')) \<and>
      customers s' = customers sample_store @ [c] \<and> c_phone c = Some ''+1234567890'')"
proof -
  have h: "\<not> email_exists sample_store ''bob@example.com''"
    by (simp add: email_exists_def sample_store_def)
  have m1: "\<not> re_match_phone ''12345''"
    by (simp add: re_match_phone_def phone_body_def plus_digits_def dashed_def)
  have m2: "re_match_phone ''+1234567890''"
    by (simp add: re_match_phone_def phone_body_def plus_digits_def dashed_def is_digit_def)
  from create_customer_phone_format [OF h, of "''12345''" "''Bob''"]
    create_customer_phone_format [OF h, of "''+1234567890''" "''Bob''"] h m1 m2
  show ?thesis by (simp, blast)
qed

text \<open>
  C9.  When the email is not already taken and the phone passes its check, creating a
  customer with the empty name succeeds and stores a customer whose name is empty; the bulk
  path rejects an entry whose name or email is empty or missing.
\<close>

theorem create_customer_empty_name:
  "\<not> email_exists s email \<Longrightarrow> \<not> phone_rejected phone \<Longrightarrow>
     (\<exists>s' c. create_customer s [] email phone = (s', Inr (c, ''Customer created successfully!'')) \<and>
        customers s' = customers s @ [c] \<and> c_name c = [] \<and> c_email c = email \<and>
        c_phone c = phone) \<and>
     bulk_item s \<lparr>d_name = Some [], d_email = Some email, d_phone = phone\<rparr>
       = Inl RequiredFieldError_bulk \<and>
     bulk_item s \<lparr>d_name = None, d_email = Some email, d_phone = phone\<rparr>
       = Inl RequiredFieldError_bulk \<and>
     bulk_item s \<lparr>d_name = Some name, d_email = None, d_phone = phone\<rparr>
       = Inl RequiredFieldError_bulk \<and>
     bulk_item s \<lparr>d_name = Some name, d_email = Some [], d_phone = phone\<rparr>
       = Inl RequiredFieldError_bulk"
  by (simp add: create_customer_def save_customer_def bulk_item_def Let_def)

theorem create_customer_empty_name_witness:
  "\<not> email_exists sample_store ''bob@example.com'' \<and> \<not> phone_rejected None \<and>
   (\<exists>s' c. create_customer sample_store [] ''bob@example.com'' None
              = (s', Inr (c, ''Customer created successfully!'')) \<and>
        customers s' = customers sample_store @ [c] \<and> c_name c = [])"
proof -
  have h1: "\<not> email_exists sample_store ''bob@example.com''"
    by (simp add: email_exists_def sample_store_def)
  have h2: "\<not> phone_rejected None" by (simp add: phone_rejected_def)
  from create_customer_empty_name [OF h1 h2] h1 h2 show ?thesis by blast
qed

section \<open>Creating a product\<close>

text \<open>
  C8.  For every store, name, price and stock: a price that is not positive raises the
  range error for the price; a positive price with a negative stock raises the range error
  for the stock; a positive price with a stock that is not negative succeeds and appends a
  product with exactly this name, price and stock, whatever names the store already holds.
  A stock that is omitted is 0.
\<close>

theorem create_product_bounds:
  "(price \<le> 0 \<longrightarrow> create_product s name price stock = (s, Inl RangeError_price)) \<and>
   (0 < price \<and> stock < 0 \<longrightarrow> create_product s name price stock = (s, Inl RangeError_stock)) \<and>
   (0 < price \<and> 0 \<le> stock \<longrightarrow>
      (\<exists>p. create_product s name price stock =
              (s\<lparr>products := products s @ [p], product_seq := Suc (product_seq s)\<rparr>, Inr p) \<and>
           p_name p = name \<and> p_price p = price \<and> p_stock p = stock)) \<and>
   create_product_field s name price None = create_product s name price 0 \<and>
   create_product_field s name price (Some stock) = create_product s name price stock"
  by (auto simp: create_product_def create_product_field_def Let_def)

theorem create_product_bounds_witness:
  "create_product sample_store ''Laptop'' 0 5 = (sample_store, Inl RangeError_price) \<and>
   create_product sample_store ''Laptop'' 1 (-1) = (sample_store, Inl RangeError_stock) \<and>
   (\<exists>p. create_product sample_store ''Laptop'' 1 0 =
           (sample_store\<lparr>products := products sample_store @ [p],
                         product_seq := Suc (product_seq sample_store)\<rparr>, Inr p) \<and>
         p_name p = ''Laptop'' \<and> p_price p = 1 \<and> p_stock p = 0) \<and>
   ''Laptop'' \<in> set (map p_name (products sample_store))"
  using create_product_bounds [of 0 sample_store "''Laptop''" 5]
    create_product_bounds [of 1 sample_store "''Laptop''" "-1"]
    create_product_bounds [of 1 sample_store "''Laptop''" 0]
  by (simp add: sample_store_def)

section \<open>Creating an order\<close>

text \<open>
  C3.  The checks of order creation run in the order customer, non-empty list, product
  ids: an absent customer raises the not-found error whatever the list is; with the
  customer present an empty list raises the required-field error; with the customer
  present and the list non-empty, a count of resolved products different from the length of
  the list raises the reference error.  The three errors are different, and each failure
  leaves the store as it was.
\<close>

theorem create_order_check_order:
  "(customer_get s customer_id = None \<longrightarrow>
      create_order s customer_id product_ids = (s, Inl NotFoundError)) \<and>
   (customer_get s customer_id \<noteq> None \<and> product_ids = [] \<longrightarrow>
      create_order s customer_id product_ids = (s, Inl RequiredFieldError_products)) \<and>
   (customer_get s customer_id \<noteq> None \<and> product_ids \<noteq> [] \<and>
    length (products_in s product_ids) \<noteq> length product_ids \<longrightarrow>
      create_order s customer_id product_ids = (s, Inl ReferenceError)) \<and>
   NotFoundError \<noteq> RequiredFieldError_products \<and> NotFoundError \<noteq> ReferenceError \<and>
   RequiredFieldError_products \<noteq> ReferenceError"
  by (auto simp: create_order_def NotFoundError_def RequiredFieldError_products_def
      ReferenceError_def)

theorem create_order_check_order_witness:
  "customer_get sample_store 7 = None \<and>
   create_order sample_store 7 [] = (sample_store, Inl NotFoundError) \<and>
   create_order sample_store 7 [99] = (sample_store, Inl NotFoundError) \<and>
   customer_get sample_store 1 \<noteq> None \<and>
   create_order sample_store 1 [] = (sample_store, Inl RequiredFieldError_products) \<and>
   length (products_in sample_store [10, 99]) \<noteq> length [10, 99 :: nat] \<and>
   create_order sample_store 1 [10, 99] = (sample_store, Inl ReferenceError)"
  using create_order_check_order [where s = sample_store and customer_id = 7 and product_ids = "[]"]
    create_order_check_order [where s = sample_store and customer_id = 7 and product_ids = "[99]"]
    create_order_check_order [where s = sample_store and customer_id = 1 and product_ids = "[]"]
    create_order_check_order
      [where s = sample_store and customer_id = 1 and product_ids = "[10, 99]"]
  by (simp add: sample_store_def products_in_def customer_get_def)

text \<open>
  The count of resolved products.  With unique primary keys it is the number of different
  requested ids that exist, so it equals the length of the list exactly when the list has
  no repeated id and every id exists.
\<close>

lemma ids_products_in:
  "map p_id (products_in s product_ids) = filter (\<lambda>i. i \<in> set product_ids) (product_ids_of s)"
  by (simp add: products_in_def product_ids_of_def filter_map comp_def)

lemma length_products_in:
  assumes "distinct (product_ids_of s)"
  shows "length (products_in s product_ids) = card (set product_ids \<inter> set (product_ids_of s))"
proof -
  have "length (products_in s product_ids) = length (map p_id (products_in s product_ids))"
    by simp
  also have "\<dots> = card ({i. i \<in> set product_ids} \<inter> set (product_ids_of s))"
    unfolding ids_products_in using assms by (rule distinct_length_filter)
  finally show ?thesis by simp
qed

lemma count_matches_iff:
  assumes "distinct (product_ids_of s)"
  shows "length (products_in s product_ids) = length product_ids \<longleftrightarrow>
         distinct product_ids \<and> set product_ids \<subseteq> set (product_ids_of s)"
proof
  assume eq: "length (products_in s product_ids) = length product_ids"
  have "card (set product_ids \<inter> set (product_ids_of s)) \<le> card (set product_ids)"
    by (simp add: card_mono)
  moreover have "card (set product_ids) \<le> length product_ids" by (rule card_length)
  ultimately have c1: "card (set product_ids) = length product_ids"
    and c2: "card (set product_ids \<inter> set (product_ids_of s)) = card (set product_ids)"
    using eq length_products_in [OF assms, of product_ids] by linarith+
  from c1 have "distinct product_ids" by (rule card_distinct)
  moreover from c2 have "set product_ids \<inter> set (product_ids_of s) = set product_ids"
    by (intro card_subset_eq) auto
  ultimately show "distinct product_ids \<and> set product_ids \<subseteq> set (product_ids_of s)" by blast
next
  assume "distinct product_ids \<and> set product_ids \<subseteq> set (product_ids_of s)"
  then have "set product_ids \<inter> set (product_ids_of s) = set product_ids"
    and "card (set product_ids) = length product_ids"
    by (auto simp: distinct_card)
  then show "length (products_in s product_ids) = length product_ids"
    using length_products_in [OF assms, of product_ids] by simp
qed

lemma find_by_id:
  "distinct (map p_id ps) \<Longrightarrow> p \<in> set ps \<Longrightarrow> find (\<lambda>q. p_id q = p_id p) ps = Some p"
  by (induction ps) (auto simp: image_iff)

lemma price_of_member:
  "distinct (product_ids_of s) \<Longrightarrow> p \<in> set (products s) \<Longrightarrow> price_of s (p_id p) = p_price p"
  by (simp add: price_of_def product_ids_of_def find_by_id)

lemma total_by_ids:
  assumes d: "distinct (product_ids_of s)" and dp: "distinct product_ids"
    and sub: "set product_ids \<subseteq> set (product_ids_of s)"
  shows "sum_list (map p_price (products_in s product_ids)) = sum_list (map (price_of s) product_ids)"
proof -
  let ?R = "set (products_in s product_ids)"
  have dprods: "distinct (products s)"
    using d unfolding product_ids_of_def by (simp add: distinct_map)
  have inj: "inj_on p_id (set (products s))"
    using d unfolding product_ids_of_def by (simp add: distinct_map)
  have injR: "inj_on p_id ?R"
    by (rule inj_on_subset [OF inj]) (auto simp: products_in_def)
  have img: "p_id ` ?R = set product_ids"
    using sub by (auto simp: products_in_def product_ids_of_def)
  have "sum_list (map p_price (products_in s product_ids)) = sum p_price ?R"
    using dprods by (simp add: sum_list_distinct_conv_sum_set products_in_def)
  also have "\<dots> = sum (\<lambda>p. price_of s (p_id p)) ?R"
    by (rule sum.cong) (auto simp: price_of_member [OF d] products_in_def)
  also have "\<dots> = sum (price_of s) (p_id ` ?R)"
    using injR by (simp add: sum.reindex)
  also have "\<dots> = sum_list (map (price_of s) product_ids)"
    using dp by (simp add: img sum_list_distinct_conv_sum_set)
  finally show ?thesis .
qed

text \<open>
  C1, as stated, fails: a list that repeats an id resolves to fewer products than it has
  entries, so the order is refused although every id resolves to an existing product.
\<close>

theorem create_order_repeated_id_counterexample:
  "customer_get sample_store 1 \<noteq> None \<and>
   [10, 10] \<noteq> ([] :: nat list) \<and>
   set [10, 10] \<subseteq> set (product_ids_of sample_store) \<and>
   create_order sample_store 1 [10, 10] = (sample_store, Inl ReferenceError)"
  by (simp add: create_order_def customer_get_def products_in_def product_ids_of_def
      sample_store_def)

text \<open>
  C1, amended.  In every store whose product ids are unique (they are primary keys), with
  an existing customer and a non-empty list of product ids: when the ids are pairwise
  different and every id resolves to an existing product, order creation succeeds, appends
  an order for that customer whose products are the requested ones and whose total is the
  sum of the prices of the resolved products, which is the sum over the requested ids of
  the price each resolves to; when some id does not resolve, or an id is repeated, it
  raises the reference error and leaves the store as it was.
\<close>

theorem create_order_total:
  assumes keys: "distinct (product_ids_of s)"
    and cust: "customer_get s customer_id = Some customer"
    and nonempty: "product_ids \<noteq> []"
  shows "(distinct product_ids \<and> set product_ids \<subseteq> set (product_ids_of s) \<longrightarrow>
            (\<exists>ordr. create_order s customer_id product_ids =
                      (s\<lparr>orders := orders s @ [ordr], order_seq := Suc (order_seq s)\<rparr>, Inr ordr) \<and>
               o_customer ordr = customer_id \<and>
               set (o_products ordr) = set product_ids \<and>
               o_total_amount ordr = sum_list (map p_price (products_in s product_ids)) \<and>
               o_total_amount ordr = sum_list (map (price_of s) product_ids))) \<and>
         (\<not> set product_ids \<subseteq> set (product_ids_of s) \<longrightarrow>
            create_order s customer_id product_ids = (s, Inl ReferenceError)) \<and>
         (\<not> distinct product_ids \<longrightarrow>
            create_order s customer_id product_ids = (s, Inl ReferenceError))"
proof -
  have cid: "c_id customer = customer_id"
    using cust by (auto simp: customer_get_def find_Some_iff)
  have fail: "create_order s customer_id product_ids = (s, Inl ReferenceError)"
    if "\<not> (distinct product_ids \<and> set product_ids \<subseteq> set (product_ids_of s))"
    using that cust nonempty count_matches_iff [OF keys, of product_ids]
    by (simp add: create_order_def Let_def)
  have ok: "\<exists>ordr. create_order s customer_id product_ids =
                      (s\<lparr>orders := orders s @ [ordr], order_seq := Suc (order_seq s)\<rparr>, Inr ordr) \<and>
               o_customer ordr = customer_id \<and>
               set (o_products ordr) = set product_ids \<and>
               o_total_amount ordr = sum_list (map p_price (products_in s product_ids)) \<and>
               o_total_amount ordr = sum_list (map (price_of s) product_ids)"
    if h: "distinct product_ids \<and> set product_ids \<subseteq> set (product_ids_of s)"
  proof -
    from h have len: "length (products_in s product_ids) = length product_ids"
      using count_matches_iff [OF keys, of product_ids] by simp
    have ids: "set (map p_id (products_in s product_ids)) = set product_ids"
      using h unfolding ids_products_in by auto
    have tot: "sum_list (map p_price (products_in s product_ids))
                 = sum_list (map (price_of s) product_ids)"
      using h by (intro total_by_ids [OF keys]) auto
    show ?thesis
      using cust nonempty len ids tot cid by (simp add: create_order_def Let_def)
  qed
  from fail ok show ?thesis by blast
qed

theorem create_order_total_witness:
  "distinct (product_ids_of sample_store) \<and>
   customer_get sample_store 1 \<noteq> None \<and>
   (\<exists>ordr. create_order sample_store 1 [10, 11] =
             (sample_store\<lparr>orders := orders sample_store @ [ordr],
                           order_seq := Suc (order_seq sample_store)\<rparr>, Inr ordr) \<and>
      o_total_amount ordr = 1350) \<and>
   create_order sample_store 1 [10, 12] = (sample_store, Inl ReferenceError)"
proof -
  let ?alice = "\<lparr>c_id = 1, c_name = ''Alice'', c_email = ''alice@example.com'', c_phone = None\<rparr>"
  have keys: "distinct (product_ids_of sample_store)"
    by (simp add: product_ids_of_def sample_store_def)
  have cust: "customer_get sample_store 1 = Some ?alice"
    by (simp add: customer_get_def sample_store_def)
  have ne1: "[10, 11] \<noteq> ([] :: nat list)" and ne2: "[10, 12] \<noteq> ([] :: nat list)" by simp_all
  have sub: "distinct [10, 11 :: nat] \<and> set [10, 11] \<subseteq> set (product_ids_of sample_store)"
    by (simp add: product_ids_of_def sample_store_def)
  have nsub: "\<not> set [10, 12] \<subseteq> set (product_ids_of sample_store)"
    by (simp add: product_ids_of_def sample_store_def)
  have prices: "sum_list (map (price_of sample_store) [10, 11]) = 1350"
    by (simp add: price_of_def sample_store_def)
  from create_order_total [OF keys cust ne1] sub prices
    create_order_total [OF keys cust ne2] nsub keys cust
  show ?thesis by (simp, metis)
qed

section \<open>Creating customers in bulk\<close>

text \<open>
  The loop without its accumulators: what it returns is what it returns from empty
  accumulators, appended to them.
\<close>

lemma bulk_loop_acc:
  "bulk_loop s ds created errors =
     (case bulk_loop s ds [] [] of (s', cs, es) \<Rightarrow> (s', created @ cs, errors @ es))"
proof (induction ds arbitrary: s created errors)
  case Nil
  show ?case by simp
next
  case (Cons d ds)
  show ?case
  proof (cases "bulk_item s d")
    case (Inl e)
    then show ?thesis
      using Cons.IH [of s created "errors @ [e]"] Cons.IH [of s "[]" "[e]"]
      by (simp split: prod.splits)
  next
    case (Inr r)
    obtain s1 c where r: "r = (s1, c)" by (cases r)
    show ?thesis
      using Inr r Cons.IH [of s1 "created @ [c]" errors] Cons.IH [of s1 "[c]" "[]"]
      by (simp split: prod.splits)
  qed
qed

lemma bulk_create_Nil: "bulk_create_customers s [] = (s, [], [])"
  by (simp add: bulk_create_customers_def)

lemma bulk_create_Cons:
  "bulk_create_customers s (d # ds) =
     (case bulk_item s d of
        Inl e \<Rightarrow> (case bulk_create_customers s ds of (s', cs, es) \<Rightarrow> (s', cs, e # es))
      | Inr (s1, c) \<Rightarrow> (case bulk_create_customers s1 ds of (s', cs, es) \<Rightarrow> (s', c # cs, es)))"
proof (cases "bulk_item s d")
  case (Inl e)
  then show ?thesis
    using bulk_loop_acc [of s ds "[]" "[e]"] by (simp add: bulk_create_customers_def)
next
  case (Inr r)
  obtain s1 c where r: "r = (s1, c)" by (cases r)
  show ?thesis
    using Inr r bulk_loop_acc [of s1 ds "[c]" "[]"] by (simp add: bulk_create_customers_def)
qed

lemma bulk_loop_append:
  "bulk_loop s (xs @ ys) created errors =
     (case bulk_loop s xs created errors of (s1, cs, es) \<Rightarrow> bulk_loop s1 ys cs es)"
proof (induction xs arbitrary: s created errors)
  case Nil
  show ?case by simp
next
  case (Cons d xs)
  show ?case
    by (cases "bulk_item s d") (auto simp: Cons.IH)
qed

text \<open>One entry: what a success stores, what a failure raises.\<close>

lemma bulk_item_Inr:
  assumes "bulk_item s d = Inr (s1, c)"
  shows "customers s1 = customers s @ [c]" and "customer_data_of c = d"
    and "\<not> email_exists s (c_email c)" and "d_email d = Some (c_email c)"
    and "c_email c \<noteq> []" and "c_name c \<noteq> []"
  using assms
  by (auto simp: bulk_item_def save_customer_def customer_data_of_def Let_def
      split: option.splits if_splits)

lemma bulk_item_Inl: "bulk_item s d = Inl e \<Longrightarrow> error_about e d"
  by (auto simp: bulk_item_def error_about_def errors_about_def split: option.splits if_splits)

text \<open>
  The body of the loop raises exactly for the entries that break a validation rule, and
  for the others it stores the customer with the name, email and phone of the entry.
\<close>

lemma bulk_item_raises_iff:
  "(\<exists>e. bulk_item s d = Inl e) \<longleftrightarrow> individually_invalid s d"
  by (auto simp: bulk_item_def individually_invalid_def name_missing_def email_missing_def
      email_taken_def phone_rejected_def split: option.splits)

lemma bulk_item_valid:
  assumes "\<not> individually_invalid s d"
  shows "\<exists>name email. d_name d = Some name \<and> d_email d = Some email \<and>
           bulk_item s d = Inr (save_customer s name email (d_phone d))"
  using assms
  by (auto simp: bulk_item_def individually_invalid_def name_missing_def email_missing_def
      email_taken_def phone_rejected_def split: option.splits)

lemma email_exists_append:
  "customers s1 = customers s @ [c] \<Longrightarrow> email_exists s1 e \<longleftrightarrow> email_exists s e \<or> e = c_email c"
  by (auto simp: email_exists_def)

lemma invalid_after_insert:
  assumes "customers s1 = customers s @ [c]"
  shows "individually_invalid s1 d \<longleftrightarrow> individually_invalid s d \<or> d_email d = Some (c_email c)"
  using email_exists_append [OF assms]
  by (auto simp: individually_invalid_def email_taken_def email_missing_def
      split: option.splits)

lemma bulk_item_taken_email:
  assumes "email_exists s email" and "d_email d = Some email" and "email \<noteq> []"
  shows "bulk_item s d = Inl (if name_missing d then RequiredFieldError_bulk
                              else DuplicateError_bulk email)"
  using assms by (auto simp: bulk_item_def name_missing_def split: option.splits)

lemma bulk_item_emails_unique:
  "bulk_item s d = Inr (s1, c) \<Longrightarrow> emails_unique s \<Longrightarrow> emails_unique s1"
  using bulk_item_Inr(1,3) [of s d s1 c]
  by (simp add: emails_unique_def email_exists_def)

text \<open>The whole loop: the customers it creates are appended to the table.\<close>

lemma bulk_loop_customers:
  "bulk_loop s ds created errors = (s', cs, es) \<Longrightarrow>
     \<exists>new. cs = created @ new \<and> customers s' = customers s @ new \<and>
           [] \<notin> set (map c_email new)"
proof (induction ds arbitrary: s created errors)
  case Nil
  then show ?case by simp
next
  case (Cons d ds)
  show ?case
  proof (cases "bulk_item s d")
    case (Inl e)
    with Cons.prems have "bulk_loop s ds created (errors @ [e]) = (s', cs, es)" by simp
    from Cons.IH [OF this] show ?thesis .
  next
    case (Inr r)
    obtain s1 c where r: "r = (s1, c)" by (cases r)
    with Inr Cons.prems have "bulk_loop s1 ds (created @ [c]) errors = (s', cs, es)" by simp
    from Cons.IH [OF this] obtain new
      where "cs = (created @ [c]) @ new" and "customers s' = customers s1 @ new"
        and "[] \<notin> set (map c_email new)" by blast
    moreover have "customers s1 = customers s @ [c]" and "c_email c \<noteq> []"
      using Inr r by (auto dest: bulk_item_Inr(1,5))
    ultimately have "cs = created @ (c # new) \<and> customers s' = customers s @ (c # new) \<and>
        [] \<notin> set (map c_email (c # new))" by auto
    then show ?thesis by blast
  qed
qed

lemma bulk_loop_emails_unique:
  "emails_unique s \<Longrightarrow> emails_unique (fst (bulk_loop s ds created errors))"
proof (induction ds arbitrary: s created errors)
  case Nil
  then show ?case by simp
next
  case (Cons d ds)
  show ?case
  proof (cases "bulk_item s d")
    case (Inl e)
    then show ?thesis using Cons by simp
  next
    case (Inr r)
    obtain s1 c where r: "r = (s1, c)" by (cases r)
    with Inr Cons.prems have "emails_unique s1" by (auto dest: bulk_item_emails_unique)
    from Cons.IH [OF this] Inr r show ?thesis by simp
  qed
qed

lemma bulk_create_result:
  assumes "distinct (map d_email (valid_entries s ds))"
  shows "case bulk_create_customers s ds of
           (s', created, errors) \<Rightarrow>
             map customer_data_of created = valid_entries s ds \<and>
             list_all2 error_about errors (invalid_entries s ds) \<and>
             customers s' = customers s @ created"
  using assms
proof (induction ds arbitrary: s)
  case Nil
  show ?case by (simp add: bulk_create_Nil valid_entries_def invalid_entries_def)
next
  case (Cons d ds)
  show ?case
  proof (cases "bulk_item s d")
    case (Inl e)
    then have inv: "individually_invalid s d" using bulk_item_raises_iff [of s d] by simp
    with Cons.prems have "distinct (map d_email (valid_entries s ds))"
      by (simp add: valid_entries_def)
    from Cons.IH [OF this] Inl inv bulk_item_Inl [OF Inl] show ?thesis
      by (simp add: bulk_create_Cons valid_entries_def invalid_entries_def split: prod.splits)
  next
    case (Inr r)
    obtain s1 c where r: "r = (s1, c)" by (cases r)
    with Inr have item: "bulk_item s d = Inr (s1, c)" by simp
    then have val: "\<not> individually_invalid s d" using bulk_item_raises_iff [of s d] by simp
    note facts = bulk_item_Inr [OF item]
    from Cons.prems val have fresh: "d_email d \<notin> d_email ` set (valid_entries s ds)"
      and dist: "distinct (map d_email (valid_entries s ds))"
      by (simp_all add: valid_entries_def)
    have same: "individually_invalid s1 d' \<longleftrightarrow> individually_invalid s d'" if "d' \<in> set ds" for d'
    proof (cases "individually_invalid s d'")
      case True
      then show ?thesis using invalid_after_insert [OF facts(1), of d'] by simp
    next
      case False
      with that have "d' \<in> set (valid_entries s ds)" by (simp add: valid_entries_def)
      with fresh have "d_email d' \<noteq> d_email d" by (metis imageI)
      with False show ?thesis
        using invalid_after_insert [OF facts(1), of d'] facts(4) by simp
    qed
    then have v: "valid_entries s1 ds = valid_entries s ds"
      and i: "invalid_entries s1 ds = invalid_entries s ds"
      by (auto simp: valid_entries_def invalid_entries_def intro: filter_cong)
    from dist v have "distinct (map d_email (valid_entries s1 ds))" by simp
    from Cons.IH [OF this] item val facts(1,2) v i show ?thesis
      by (simp add: bulk_create_Cons valid_entries_def invalid_entries_def split: prod.splits)
  qed
qed

lemma valid_invalid_length:
  "length (valid_entries s ds) = length ds - length (invalid_entries s ds)"
  using sum_length_filter_compl [of "individually_invalid s" ds]
  by (simp add: valid_entries_def invalid_entries_def)

text \<open>
  C2, as stated, fails: two entries with the same email each satisfy every validation rule
  on their own (N = 2, K = 0), yet the second one meets the row stored for the first and is
  refused, so the call returns one customer and one error and not two customers and no
  error.
\<close>

theorem bulk_create_same_email_counterexample:
  "length [ann, ann] = 2 \<and> length (invalid_entries empty_store [ann, ann]) = 0 \<and>
   length (fst (snd (bulk_create_customers empty_store [ann, ann]))) = 1 \<and>
   snd (snd (bulk_create_customers empty_store [ann, ann])) = [DuplicateError_bulk ''ann@example.com'']"
  by (simp add: bulk_create_customers_def bulk_item_def save_customer_def email_exists_def
      invalid_entries_def individually_invalid_def name_missing_def email_missing_def
      email_taken_def phone_rejected_def ann_def empty_store_def Let_def)

text \<open>
  C2, amended.  For every store and every list of N entries of which K are individually
  invalid by the validation rules, when no two individually valid entries have the same
  email: the call returns exactly N - K customers and exactly K errors; the customers
  created carry the name, email and phone of the valid entries, one for one and in the
  order of the list; the errors are, position by position, errors about the invalid entries
  in the order of the list; and the customers created are appended to the customers of the
  store, whatever failed.
\<close>

theorem bulk_create_partition:
  assumes "distinct (map d_email (valid_entries s ds))"
  shows "case bulk_create_customers s ds of
           (s', created, errors) \<Rightarrow>
             length created = length ds - length (invalid_entries s ds) \<and>
             length errors = length (invalid_entries s ds) \<and>
             map customer_data_of created = valid_entries s ds \<and>
             list_all2 error_about errors (invalid_entries s ds) \<and>
             customers s' = customers s @ created"
proof -
  obtain s' created errors where res: "bulk_create_customers s ds = (s', created, errors)"
    by (cases "bulk_create_customers s ds") auto
  with bulk_create_result [OF assms]
  have m: "map customer_data_of created = valid_entries s ds"
    and e: "list_all2 error_about errors (invalid_entries s ds)"
    and c: "customers s' = customers s @ created"
    by simp_all
  from m have "length created = length (valid_entries s ds)"
    by (metis length_map)
  then have "length created = length ds - length (invalid_entries s ds)"
    by (simp add: valid_invalid_length)
  moreover from e have "length errors = length (invalid_entries s ds)"
    by (rule list_all2_lengthD)
  ultimately show ?thesis using res m e c by simp
qed

theorem bulk_create_partition_witness:
  "distinct (map d_email (valid_entries empty_store [bad_phone, ann, nameless_ann])) \<and>
   invalid_entries empty_store [bad_phone, ann, nameless_ann] = [bad_phone, nameless_ann] \<and>
   (case bulk_create_customers empty_store [bad_phone, ann, nameless_ann] of
      (s', created, errors) \<Rightarrow>
        length created = 1 \<and> length errors = 2 \<and>
        map customer_data_of created = [ann] \<and> customers s' = created)"
proof -
  have v: "valid_entries empty_store [bad_phone, ann, nameless_ann] = [ann]"
    by (simp add: valid_entries_def individually_invalid_def name_missing_def email_missing_def
        email_taken_def phone_rejected_def email_exists_def ann_def bad_phone_def
        nameless_ann_def empty_store_def re_match_phone_def phone_body_def plus_digits_def
        dashed_def)
  have i: "invalid_entries empty_store [bad_phone, ann, nameless_ann] = [bad_phone, nameless_ann]"
    by (simp add: invalid_entries_def individually_invalid_def name_missing_def
        email_missing_def email_taken_def phone_rejected_def email_exists_def ann_def
        bad_phone_def nameless_ann_def empty_store_def re_match_phone_def phone_body_def
        plus_digits_def dashed_def)
  have d: "distinct (map d_email (valid_entries empty_store [bad_phone, ann, nameless_ann]))"
    by (simp add: v)
  have e: "customers empty_store = []" by (simp add: empty_store_def)
  from bulk_create_partition [OF d] d show ?thesis
    by (simp add: v i e split: prod.splits)
qed

text \<open>
  C10, as stated, fails: a later entry that has the email of a customer created earlier in
  the batch and no name is refused for the missing name, not for the duplicate email; the
  name is checked first.
\<close>

theorem bulk_create_same_email_required_counterexample:
  "(case bulk_create_customers empty_store [ann] of
      (s1, created, errors) \<Rightarrow> map c_email created = [''ann@example.com'']) \<and>
   d_email nameless_ann = Some ''ann@example.com'' \<and>
   snd (snd (bulk_create_customers empty_store [ann, nameless_ann])) = [RequiredFieldError_bulk] \<and>
   RequiredFieldError_bulk \<noteq> DuplicateError_bulk ''ann@example.com''"
  by (simp add: bulk_create_customers_def bulk_item_def save_customer_def email_exists_def
      ann_def nameless_ann_def empty_store_def Let_def RequiredFieldError_bulk_def
      DuplicateError_bulk_def)

text \<open>
  C10, amended.  When the entries before an entry \<open>d\<close> have been processed and one of the
  customers they created has the email of \<open>d\<close>, then \<open>d\<close> is refused: the store and the
  list of created customers stay as they were before \<open>d\<close>, one error is appended
  (the duplicate-email error for that email when \<open>d\<close> has a name, the required-field error
  when it has none), and the loop goes on with the rest.  A batch run on a store with unique
  emails leaves a store with unique emails.
\<close>

theorem bulk_create_later_duplicate:
  assumes before: "bulk_create_customers s before = (s1, created, errors)"
    and earlier: "c \<in> set created"
    and same: "d_email d = Some (c_email c)"
  shows "bulk_create_customers s (before @ d # rest) =
           bulk_loop s1 rest created
             (errors @ [if name_missing d then RequiredFieldError_bulk
                        else DuplicateError_bulk (c_email c)]) \<and>
         (emails_unique s \<longrightarrow>
            emails_unique (fst (bulk_create_customers s (before @ d # rest))))"
proof -
  from before obtain new where new: "created = [] @ new" "customers s1 = customers s @ new"
    and nonempty: "[] \<notin> set (map c_email new)"
    unfolding bulk_create_customers_def by (blast dest: bulk_loop_customers)
  from new earlier have ex: "email_exists s1 (c_email c)"
    by (auto simp: email_exists_def)
  from new(1) earlier nonempty have ne: "c_email c \<noteq> []"
    by (metis append_Nil image_eqI set_map)
  have "bulk_create_customers s (before @ d # rest) =
           bulk_loop s1 rest created
             (errors @ [if name_missing d then RequiredFieldError_bulk
                        else DuplicateError_bulk (c_email c)])"
    using before bulk_item_taken_email [OF ex same ne]
    by (simp add: bulk_create_customers_def bulk_loop_append)
  moreover have "emails_unique s \<longrightarrow>
      emails_unique (fst (bulk_create_customers s (before @ d # rest)))"
    by (simp add: bulk_create_customers_def bulk_loop_emails_unique)
  ultimately show ?thesis by blast
qed

theorem bulk_create_later_duplicate_witness:
  "bulk_create_customers empty_store [ann] = (ann_store, [ann_row], []) \<and>
   ann_row \<in> set [ann_row] \<and> d_email ann = Some (c_email ann_row) \<and>
   bulk_create_customers empty_store ([ann] @ ann # [nameless_ann]) =
     (ann_store, [ann_row], [DuplicateError_bulk ''ann@example.com'', RequiredFieldError_bulk]) \<and>
   emails_unique empty_store \<and>
   emails_unique (fst (bulk_create_customers empty_store ([ann] @ ann # [nameless_ann])))"
proof -
  have b: "bulk_create_customers empty_store [ann] = (ann_store, [ann_row], [])"
    by (simp add: bulk_create_customers_def bulk_item_def save_customer_def email_exists_def
        ann_def ann_row_def ann_store_def empty_store_def Let_def)
  have m: "ann_row \<in> set [ann_row]" by simp
  have e: "d_email ann = Some (c_email ann_row)" by (simp add: ann_def ann_row_def)
  have u: "emails_unique empty_store" by (simp add: emails_unique_def empty_store_def)
  have n: "\<not> name_missing ann" by (simp add: name_missing_def ann_def)
  have r: "bulk_loop ann_store [nameless_ann] [ann_row] [DuplicateError_bulk ''ann@example.com'']
             = (ann_store, [ann_row],
                [DuplicateError_bulk ''ann@example.com'', RequiredFieldError_bulk])"
    by (simp add: bulk_item_def nameless_ann_def)
  have a: "c_email ann_row = ''ann@example.com''" by (simp add: ann_row_def)
  from bulk_create_later_duplicate [OF b m e, of "[nameless_ann]"] n r a
  have res: "bulk_create_customers empty_store ([ann] @ ann # [nameless_ann]) =
      (ann_store, [ann_row], [DuplicateError_bulk ''ann@example.com'', RequiredFieldError_bulk])"
    by simp
  from bulk_create_later_duplicate [OF b m e, of "[nameless_ann]"] u
  have uq: "emails_unique (fst (bulk_create_customers empty_store ([ann] @ ann # [nameless_ann])))"
    by blast
  from b m e u res uq show ?thesis by blast
qed

section \<open>What the mutations keep\<close>

text \<open>
  Product ids stay primary keys: the empty store has none, creating a product issues the
  next value of the sequence, and the other mutations leave the product table alone.
\<close>

lemma products_keyed_empty: "products_keyed empty_store"
  by (simp add: products_keyed_def product_ids_of_def empty_store_def)

lemma products_keyed_insert:
  assumes "products_keyed s"
  shows "products_keyed
           (s\<lparr>products := products s @ [\<lparr>p_id = Suc (product_seq s), p_name = name,
                                           p_price = price, p_stock = stock\<rparr>],
              product_seq := Suc (product_seq s)\<rparr>)"
proof -
  from assms have fresh: "Suc (product_seq s) \<notin> set (product_ids_of s)"
    by (auto simp: products_keyed_def list_all_iff)
  with assms show ?thesis
    by (auto simp: products_keyed_def product_ids_of_def list_all_iff)
qed

lemma create_product_keyed:
  "products_keyed s \<Longrightarrow> products_keyed (fst (create_product s name price stock))"
  using products_keyed_insert [of s name price stock]
  by (simp add: create_product_def Let_def)

lemma product_get_or_create_keyed:
  "products_keyed s \<Longrightarrow> product_get_or_create s name price stock = Inr (s', p, created) \<Longrightarrow>
     products_keyed s'"
  using products_keyed_insert [of s name price stock]
  by (auto simp: product_get_or_create_def Let_def split: list.splits)

lemma seed_products_loop_keyed:
  "products_keyed s \<Longrightarrow> seed_products_loop s rows = Inr s' \<Longrightarrow> products_keyed s'"
proof (induction s rows rule: seed_products_loop.induct)
  case (1 s)
  then show ?case by simp
next
  case (2 s name price stock rest)
  from "2.prems"(2) obtain s1 p created
    where step: "product_get_or_create s name price stock = Inr (s1, p, created)"
      and rest: "seed_products_loop s1 rest = Inr s'"
    by (auto split: sum.splits)
  from product_get_or_create_keyed [OF "2.prems"(1) step] have "products_keyed s1" .
  with "2.IH" step rest show ?case by simp
qed

lemma products_keyed_cong:
  "products s' = products s \<Longrightarrow> product_seq s' = product_seq s \<Longrightarrow>
     products_keyed s' = products_keyed s"
  by (simp add: products_keyed_def product_ids_of_def)

lemma create_customer_products:
  "products (fst (create_customer s name email phone)) = products s \<and>
   product_seq (fst (create_customer s name email phone)) = product_seq s"
  by (simp add: create_customer_def save_customer_def Let_def)

lemma create_order_products:
  "products (fst (create_order s customer_id product_ids)) = products s \<and>
   product_seq (fst (create_order s customer_id product_ids)) = product_seq s"
  by (simp add: create_order_def Let_def split: option.splits)

lemma bulk_item_products:
  "bulk_item s d = Inr (s1, c) \<Longrightarrow> products s1 = products s \<and> product_seq s1 = product_seq s"
  by (auto simp: bulk_item_def save_customer_def Let_def split: option.splits if_splits)

lemma bulk_loop_products:
  "products (fst (bulk_loop s ds created errors)) = products s \<and>
   product_seq (fst (bulk_loop s ds created errors)) = product_seq s"
proof (induction ds arbitrary: s created errors)
  case Nil
  show ?case by simp
next
  case (Cons d ds)
  show ?case
  proof (cases "bulk_item s d")
    case (Inl e)
    then show ?thesis using Cons.IH by simp
  next
    case (Inr r)
    obtain s1 c where r: "r = (s1, c)" by (cases r)
    with Inr Cons.IH [of s1] bulk_item_products [of s d s1 c] show ?thesis by simp
  qed
qed

text \<open>
  The two mutations that store customers check the phone first, so they keep every stored
  phone within the pattern; the seed routine has no such check.
\<close>

lemma phones_valid_empty: "phones_valid empty_store"
  by (simp add: phones_valid_def empty_store_def)

lemma phone_ok_checked: "\<not> phone_rejected phone \<Longrightarrow> phone_ok \<lparr>c_id = i, c_name = name, c_email = email, c_phone = phone\<rparr>"
  by (auto simp: phone_rejected_def phone_ok_def split: option.splits)

lemma create_customer_phones_valid:
  "phones_valid s \<Longrightarrow> phones_valid (fst (create_customer s name email phone))"
  using phone_ok_checked [of phone]
  by (simp add: create_customer_def save_customer_def phones_valid_def Let_def)

lemma bulk_item_phones_valid:
  "bulk_item s d = Inr (s1, c) \<Longrightarrow> phones_valid s \<Longrightarrow> phones_valid s1"
  by (auto simp: bulk_item_def save_customer_def phones_valid_def phone_ok_def Let_def
      split: option.splits if_splits)

lemma bulk_loop_phones_valid:
  "phones_valid s \<Longrightarrow> phones_valid (fst (bulk_loop s ds created errors))"
proof (induction ds arbitrary: s created errors)
  case Nil
  then show ?case by simp
next
  case (Cons d ds)
  show ?case
  proof (cases "bulk_item s d")
    case (Inl e)
    then show ?thesis using Cons by simp
  next
    case (Inr r)
    obtain s1 c where r: "r = (s1, c)" by (cases r)
    with Inr Cons.prems have "phones_valid s1" by (auto dest: bulk_item_phones_valid)
    from Cons.IH [OF this] Inr r show ?thesis by simp
  qed
qed

lemma create_product_customers:
  "customers (fst (create_product s name price stock)) = customers s"
  by (simp add: create_product_def Let_def)

lemma create_order_customers:
  "customers (fst (create_order s customer_id product_ids)) = customers s"
  by (simp add: create_order_def Let_def split: option.splits)

end
